theory Spec2Isabelle
  imports Main "HOL-Library.Multiset"
begin

section \<open>Data model\<close>

text \<open>
  The Go structs \<^verbatim>\<open>Director\<close> and \<^verbatim>\<open>Movie\<close>. The field
  \<^verbatim>\<open>Director *Director\<close> is a pointer that may be nil: an option. No handler
  writes through that pointer, so the pointee is kept by value.
\<close>

record Director =
  Firstname :: string
  Lastname :: string

record Movie =
  ID :: string
  Isbn :: string
  Title :: string
  Director :: "Director option"

text \<open>The zero value of \<^verbatim>\<open>var movie Movie\<close>: empty strings and a nil pointer.\<close>

definition zero_Movie :: Movie where
  "zero_Movie = \<lparr>ID = [], Isbn = [], Title = [], Director = None\<rparr>"

section \<open>The HTTP request and response\<close>

text \<open>
  What \<^verbatim>\<open>json.NewEncoder(w).Encode(v)\<close> writes is kept as the value handed to
  the encoder: a single movie or the whole slice. The response body is the sequence
  of those writes, so an empty body is the empty sequence.
\<close>

datatype encoded = EncMovie Movie | EncMovies "Movie list"

text \<open>
  The response writer: the header map, the status given to an explicit
  \<^verbatim>\<open>WriteHeader\<close> call (no handler of this program makes one), and the writes.
\<close>

record ResponseWriter =
  Header :: "string \<rightharpoonup> string"
  WroteHeader :: "nat option"
  Written :: "encoded list"

definition new_ResponseWriter :: ResponseWriter where
  "new_ResponseWriter = \<lparr>Header = Map.empty, WroteHeader = None, Written = []\<rparr>"

text \<open>\<^verbatim>\<open>w.Header().Set(k, v)\<close>\<close>

definition Header_Set :: "string \<Rightarrow> string \<Rightarrow> ResponseWriter \<Rightarrow> ResponseWriter" where
  "Header_Set k v w = w\<lparr>Header := (Header w)(k \<mapsto> v)\<rparr>"

text \<open>\<^verbatim>\<open>json.NewEncoder(w).Encode(v)\<close>\<close>

definition Encode :: "encoded \<Rightarrow> ResponseWriter \<Rightarrow> ResponseWriter" where
  "Encode v w = w\<lparr>Written := Written w @ [v]\<rparr>"

text \<open>
  The status the client sees: net/http sends 200 when the handler never called
  \<^verbatim>\<open>WriteHeader\<close>.
\<close>

definition response_status :: "ResponseWriter \<Rightarrow> nat" where
  "response_status w = (case WroteHeader w of None \<Rightarrow> 200 | Some c \<Rightarrow> c)"

text \<open>
  The request: the route variables of \<^verbatim>\<open>mux.Vars(r)\<close> and the raw body.
  Indexing a Go map at a missing key gives the zero value, the empty string.
\<close>

record Request =
  Vars :: "string \<rightharpoonup> string"
  Body :: string

definition params :: "Request \<Rightarrow> string \<Rightarrow> string" where
  "params r k = (case Vars r k of None \<Rightarrow> [] | Some v \<Rightarrow> v)"

text \<open>
  \<^verbatim>\<open>json.NewDecoder(r.Body).Decode(&movie)\<close> is library code: it is a
  parameter of the handlers. It gets the body and the target's current value and
  gives back the error it returns (if any) and the target's value afterwards.
\<close>

datatype json_error = json_error string

type_synonym decoder = "string \<Rightarrow> Movie \<Rightarrow> json_error option \<times> Movie"

section \<open>strconv.Itoa\<close>

function digits :: "nat \<Rightarrow> string" where
  "digits n = (if n < 10 then [char_of (48 + n)] else digits (n div 10) @ [char_of (48 + n mod 10)])"
  by pat_completeness auto
termination
  by (relation "measure id") auto

definition Itoa :: "int \<Rightarrow> string" where
  "Itoa i = (if i < 0 then CHR ''-'' # digits (nat (- i)) else digits (nat i))"

text \<open>Reading a string of decimal digits back, most significant digit first.\<close>

definition is_digit :: "char \<Rightarrow> bool" where
  "is_digit c = (48 \<le> (of_char c :: nat) \<and> (of_char c :: nat) \<le> 57)"

definition decimal_value :: "string \<Rightarrow> nat" where
  "decimal_value s = foldl (\<lambda>acc c. 10 * acc + (of_char c - 48)) 0 s"

section \<open>encoding/json: reading one value\<close>

text \<open>
  The JSON codec is library code. Its scanner is a state machine that is fed one byte
  at a time; it is written down here after \<^verbatim>\<open>scanner.go\<close> and \<^verbatim>\<open>stream.go\<close>
  to say which request bodies hold a JSON value and where that value ends.
\<close>

text \<open>
  The parse stack of the scanner (\<^verbatim>\<open>parseState\<close>, here with its top at the head),
  the step function the scanner is in, and the codes a step returns. The literal states
  (\<^verbatim>\<open>stateT\<close>, \<^verbatim>\<open>stateTr\<close>, ...) are one state that holds the characters
  still expected, the four \<^verbatim>\<open>stateInStringEscU\<close> states one state that counts the
  hexadecimal digits read; every code that lets the scan go on is \<^verbatim>\<open>scanContinue\<close>.
\<close>

datatype frame = parseObjectKey | parseObjectValue | parseArrayValue

datatype mode =
    BeginValueOrEmpty | BeginValue | BeginStringOrEmpty | BeginString | EndValue | EndTop
  | InString | InStringEsc | InStringEscU nat
  | StateNeg | State1 | State0 | StateDot | StateDot0 | StateE | StateESign | StateE0
  | Literal string | StateError

datatype code = scanContinue | scanEndObject | scanEndArray | scanEnd | scanError

definition isSpace :: "char \<Rightarrow> bool" where
  "isSpace c = (c = CHR '' '' \<or> c = CHR 0x09 \<or> c = CHR 0x0D \<or> c = CHR 0x0A)"

definition is_hex :: "char \<Rightarrow> bool" where
  "is_hex c = (is_digit c \<or> c \<in> set ''abcdefABCDEF'')"

definition popParseState :: "frame list \<Rightarrow> mode \<times> frame list" where
  "popParseState st = (if tl st = [] then (EndTop, []) else (EndValue, tl st))"

fun stateEndValue :: "frame list \<Rightarrow> char \<Rightarrow> code \<times> mode \<times> frame list" where
  "stateEndValue [] c = (scanEnd, EndTop, [])"
| "stateEndValue (ps # st) c =
     (if isSpace c then (scanContinue, EndValue, ps # st)
      else case ps of
        parseObjectKey \<Rightarrow>
          if c = CHR '':'' then (scanContinue, BeginValue, parseObjectValue # st)
          else (scanError, StateError, ps # st)
      | parseObjectValue \<Rightarrow>
          if c = CHR '','' then (scanContinue, BeginString, parseObjectKey # st)
          else if c = CHR ''}'' then (scanEndObject, popParseState (ps # st))
          else (scanError, StateError, ps # st)
      | parseArrayValue \<Rightarrow>
          if c = CHR '','' then (scanContinue, BeginValue, ps # st)
          else if c = CHR '']'' then (scanEndArray, popParseState (ps # st))
          else (scanError, StateError, ps # st))"

definition stateBeginValue :: "frame list \<Rightarrow> char \<Rightarrow> code \<times> mode \<times> frame list" where
  "stateBeginValue st c =
     (if isSpace c then (scanContinue, BeginValue, st)
      else if c = CHR ''{'' then (scanContinue, BeginStringOrEmpty, parseObjectKey # st)
      else if c = CHR ''['' then (scanContinue, BeginValueOrEmpty, parseArrayValue # st)
      else if c = CHR 0x22 then (scanContinue, InString, st)
      else if c = CHR ''-'' then (scanContinue, StateNeg, st)
      else if c = CHR ''0'' then (scanContinue, State0, st)
      else if c = CHR ''t'' then (scanContinue, Literal ''rue'', st)
      else if c = CHR ''f'' then (scanContinue, Literal ''alse'', st)
      else if c = CHR ''n'' then (scanContinue, Literal ''ull'', st)
      else if is_digit c then (scanContinue, State1, st)
      else (scanError, StateError, st))"

definition stateBeginString :: "frame list \<Rightarrow> char \<Rightarrow> code \<times> mode \<times> frame list" where
  "stateBeginString st c =
     (if isSpace c then (scanContinue, BeginString, st)
      else if c = CHR 0x22 then (scanContinue, InString, st)
      else (scanError, StateError, st))"

definition state0 :: "frame list \<Rightarrow> char \<Rightarrow> code \<times> mode \<times> frame list" where
  "state0 st c =
     (if c = CHR ''.'' then (scanContinue, StateDot, st)
      else if c = CHR ''e'' \<or> c = CHR ''E'' then (scanContinue, StateE, st)
      else stateEndValue st c)"

definition stateESign :: "frame list \<Rightarrow> char \<Rightarrow> code \<times> mode \<times> frame list" where
  "stateESign st c = (if is_digit c then (scanContinue, StateE0, st) else (scanError, StateError, st))"

fun step :: "mode \<Rightarrow> frame list \<Rightarrow> char \<Rightarrow> code \<times> mode \<times> frame list" where
  "step BeginValueOrEmpty st c =
     (if isSpace c then (scanContinue, BeginValueOrEmpty, st)
      else if c = CHR '']'' then stateEndValue st c
      else stateBeginValue st c)"
| "step BeginValue st c = stateBeginValue st c"
| "step BeginStringOrEmpty st c =
     (if isSpace c then (scanContinue, BeginStringOrEmpty, st)
      else if c = CHR ''}'' then stateEndValue (parseObjectValue # tl st) c
      else stateBeginString st c)"
| "step BeginString st c = stateBeginString st c"
| "step EndValue st c = stateEndValue st c"
| "step EndTop st c = (scanEnd, EndTop, st)"
| "step InString st c =
     (if c = CHR 0x22 then (scanContinue, EndValue, st)
      else if c = CHR 0x5C then (scanContinue, InStringEsc, st)
      else if (of_char c :: nat) < 32 then (scanError, StateError, st)
      else (scanContinue, InString, st))"
| "step InStringEsc st c =
     (if c \<in> set [CHR ''b'', CHR ''f'', CHR ''n'', CHR ''r'', CHR ''t'', CHR 0x5C, CHR ''/'', CHR 0x22]
      then (scanContinue, InString, st)
      else if c = CHR ''u'' then (scanContinue, InStringEscU 0, st)
      else (scanError, StateError, st))"
| "step (InStringEscU n) st c =
     (if is_hex c then (scanContinue, if n = 3 then InString else InStringEscU (n + 1), st)
      else (scanError, StateError, st))"
| "step StateNeg st c =
     (if c = CHR ''0'' then (scanContinue, State0, st)
      else if is_digit c then (scanContinue, State1, st)
      else (scanError, StateError, st))"
| "step State1 st c = (if is_digit c then (scanContinue, State1, st) else state0 st c)"
| "step State0 st c = state0 st c"
| "step StateDot st c = (if is_digit c then (scanContinue, StateDot0, st) else (scanError, StateError, st))"
| "step StateDot0 st c =
     (if is_digit c then (scanContinue, StateDot0, st)
      else if c = CHR ''e'' \<or> c = CHR ''E'' then (scanContinue, StateE, st)
      else stateEndValue st c)"
| "step StateE st c =
     (if c = CHR ''+'' \<or> c = CHR ''-'' then (scanContinue, StateESign, st) else stateESign st c)"
| "step StateESign st c = stateESign st c"
| "step StateE0 st c = (if is_digit c then (scanContinue, StateE0, st) else stateEndValue st c)"
| "step (Literal []) st c = (scanError, StateError, st)"
| "step (Literal (x # rest)) st c =
     (if c = x then (scanContinue, if rest = [] then EndValue else Literal rest, st)
      else (scanError, StateError, st))"
| "step StateError st c = (scanError, StateError, st)"

text \<open>
  \<^verbatim>\<open>Decoder.readValue\<close>: the bytes are stepped through until one JSON value is
  complete. The result is what is left of the input after that value; there is none when
  a step fails or the input ends inside the value. A closing brace or bracket that ends
  the outermost value ends the scan at once, so what follows it is never looked at.
\<close>

fun readValue_loop :: "mode \<Rightarrow> frame list \<Rightarrow> string \<Rightarrow> string option" where
  "readValue_loop m st [] =
     (case step m st (CHR '' '') of (scanEnd, _) \<Rightarrow> Some [] | _ \<Rightarrow> None)"
| "readValue_loop m st (c # buf) =
     (case step m st c of
        (scanEnd, _) \<Rightarrow> Some (c # buf)
      | (scanEndObject, m', st') \<Rightarrow>
          (case stateEndValue st' (CHR '' '') of
             (scanEnd, _) \<Rightarrow> Some buf
           | _ \<Rightarrow> readValue_loop m' st' buf)
      | (scanEndArray, m', st') \<Rightarrow>
          (case stateEndValue st' (CHR '' '') of
             (scanEnd, _) \<Rightarrow> Some buf
           | _ \<Rightarrow> readValue_loop m' st' buf)
      | (scanError, _) \<Rightarrow> None
      | (scanContinue, m', st') \<Rightarrow> readValue_loop m' st' buf)"

definition readValue :: "string \<Rightarrow> (string \<times> string) option" where
  "readValue buf =
     (case readValue_loop BeginValue [] buf of
        None \<Rightarrow> None
      | Some rest \<Rightarrow> Some (take (length buf - length rest) buf, rest))"

text \<open>
  \<^verbatim>\<open>json.Valid\<close>: the whole input is one JSON value, with white space around it at
  most.
\<close>

definition Valid :: "string \<Rightarrow> bool" where
  "Valid data =
     (case readValue_loop BeginValue [] data of
        None \<Rightarrow> False
      | Some rest \<Rightarrow> list_all isSpace rest)"

text \<open>
  \<^verbatim>\<open>Decoder.Decode\<close> on a fresh decoder: it reads the next value of the input and
  unmarshals the bytes of that value into the target; when there is no value to read it
  returns an error and leaves the target alone. Unmarshalling is the parameter
  \<open>Unmarshal\<close>. Which error is returned for a missing value (a syntax error or an
  end-of-input error) is not told apart: the handlers drop it.
\<close>

definition Decoder_Decode :: "(string \<Rightarrow> Movie \<Rightarrow> json_error option \<times> Movie) \<Rightarrow> decoder" where
  "Decoder_Decode Unmarshal body v =
     (case readValue body of
        None \<Rightarrow> (Some (json_error ''invalid JSON''), v)
      | Some (val, rest) \<Rightarrow> Unmarshal val v)"

section \<open>The store and the handlers\<close>

text \<open>
  The global \<^verbatim>\<open>var movies []Movie\<close> is passed to each handler and returned by it,
  next to the response writer. A handler's loop \<^verbatim>\<open>for i := 0; i < len(movies); i++\<close>
  is a recursive function of the index.
\<close>

definition getMovies :: "Request \<Rightarrow> ResponseWriter \<Rightarrow> Movie list \<Rightarrow> ResponseWriter \<times> Movie list" where
  "getMovies r w movies =
     (let w = Header_Set ''Content-Type'' ''application/json'' w
      in (Encode (EncMovies movies) w, movies))"

function deleteMovie_loop :: "string \<Rightarrow> nat \<Rightarrow> Movie list \<Rightarrow> Movie list" where
  "deleteMovie_loop pid i movies =
     (if i < length movies then
        (if ID (movies ! i) = pid then take i movies @ drop (i + 1) movies
         else deleteMovie_loop pid (i + 1) movies)
      else movies)"
  by pat_completeness auto
termination
  by (relation "measure (\<lambda>(pid, i, movies). length movies - i)") auto

definition deleteMovie :: "Request \<Rightarrow> ResponseWriter \<Rightarrow> Movie list \<Rightarrow> ResponseWriter \<times> Movie list" where
  "deleteMovie r w movies =
     (let w = Header_Set ''Content-Type'' ''application/json'' w
      in (w, deleteMovie_loop (params r ''id'') 0 movies))"

function getMovie_loop :: "string \<Rightarrow> nat \<Rightarrow> Movie list \<Rightarrow> ResponseWriter \<Rightarrow> ResponseWriter" where
  "getMovie_loop pid i movies w =
     (if i < length movies then
        (if ID (movies ! i) = pid then Encode (EncMovie (movies ! i)) w
         else getMovie_loop pid (i + 1) movies w)
      else w)"
  by pat_completeness auto
termination
  by (relation "measure (\<lambda>(pid, i, movies, w). length movies - i)") auto

definition getMovie :: "Request \<Rightarrow> ResponseWriter \<Rightarrow> Movie list \<Rightarrow> ResponseWriter \<times> Movie list" where
  "getMovie r w movies =
     (let w = Header_Set ''Content-Type'' ''application/json'' w
      in (getMovie_loop (params r ''id'') 0 movies w, movies))"

text \<open>
  \<^verbatim>\<open>rand.Intn\<close> is library code too: \<open>Intn\<close> stands for the value the call
  returns for a given bound at the moment of the request.
\<close>

definition createMovie ::
  "decoder \<Rightarrow> (int \<Rightarrow> int) \<Rightarrow> Request \<Rightarrow> ResponseWriter \<Rightarrow> Movie list \<Rightarrow> ResponseWriter \<times> Movie list" where
  "createMovie Decode Intn r w movies =
     (let w = Header_Set ''Content-Type'' ''application/json'' w;
          movie = zero_Movie;
          movie = snd (Decode (Body r) movie);
          movie = movie\<lparr>ID := Itoa (Intn 1000000)\<rparr>;
          movies = movies @ [movie]
      in (Encode (EncMovie movie) w, movies))"

function updateMovie_loop ::
  "decoder \<Rightarrow> Request \<Rightarrow> nat \<Rightarrow> ResponseWriter \<Rightarrow> Movie list \<Rightarrow> ResponseWriter \<times> Movie list" where
  "updateMovie_loop Decode r i w movies =
     (if i < length movies then
        (if ID (movies ! i) = params r ''id'' then
           (let movies = take i movies @ drop (i + 1) movies;
                movie = zero_Movie;
                movie = snd (Decode (Body r) movie);
                movie = movie\<lparr>ID := params r ''id''\<rparr>;
                movies = movies @ [movie]
            in (Encode (EncMovie movie) w, movies))
         else updateMovie_loop Decode r (i + 1) w movies)
      else (w, movies))"
  by pat_completeness auto
termination
  by (relation "measure (\<lambda>(Decode, r, i, w, movies). length movies - i)") auto

definition updateMovie ::
  "decoder \<Rightarrow> Request \<Rightarrow> ResponseWriter \<Rightarrow> Movie list \<Rightarrow> ResponseWriter \<times> Movie list" where
  "updateMovie Decode r w movies =
     (let w = Header_Set ''Content-Type'' ''application/json'' w
      in updateMovie_loop Decode r 0 w movies)"

text \<open>
  The two \<^verbatim>\<open>append\<close> calls at the start of \<^verbatim>\<open>main\<close>, on the nil slice the
  variable holds at process start.
\<close>

definition main_movies :: "Movie list" where
  "main_movies =
     (let movies = [];
          movies = movies @ [\<lparr>ID = ''1'', Isbn = ''123456'', Title = ''Movie One'',
             Director = Some \<lparr>Firstname = ''Lebron'', Lastname = ''James''\<rparr>\<rparr>];
          movies = movies @ [\<lparr>ID = ''2'', Isbn = ''654321'', Title = ''Movie Two'',
             Director = Some \<lparr>Firstname = ''Joe'', Lastname = ''Biden''\<rparr>\<rparr>]
      in movies)"

declare deleteMovie_loop.simps [simp del]
declare getMovie_loop.simps [simp del]
declare updateMovie_loop.simps [simp del]
declare digits.simps [simp del]

section \<open>The loops as list functions\<close>

text \<open>
  Each loop, started at index \<open>i\<close>, keeps the first \<open>i\<close> records and acts on the
  first record at or after \<open>i\<close> whose id is the one asked for.
\<close>

lemma tl_drop_Suc: "tl (drop k xs) = drop (Suc k) xs"
  by (simp add: drop_Suc drop_tl)

lemma deleteMovie_loop_from:
  "i \<le> length movies \<Longrightarrow>
   deleteMovie_loop pid i movies =
     take i movies @ takeWhile (\<lambda>m. ID m \<noteq> pid) (drop i movies)
       @ tl (dropWhile (\<lambda>m. ID m \<noteq> pid) (drop i movies))"
proof (induction pid i movies rule: deleteMovie_loop.induct)
  case (1 pid i movies)
  show ?case
  proof (cases "i < length movies")
    case False
    with "1.prems" show ?thesis
      by (subst deleteMovie_loop.simps) simp
  next
    case inside: True
    then have split: "drop i movies = movies ! i # drop (Suc i) movies"
      by (simp add: Cons_nth_drop_Suc)
    show ?thesis
    proof (cases "ID (movies ! i) = pid")
      case True
      with inside split show ?thesis
        by (simp add: deleteMovie_loop.simps [of pid i movies])
    next
      case False
      with inside have "deleteMovie_loop pid (i + 1) movies =
          take (i + 1) movies @ takeWhile (\<lambda>m. ID m \<noteq> pid) (drop (i + 1) movies)
            @ tl (dropWhile (\<lambda>m. ID m \<noteq> pid) (drop (i + 1) movies))"
        using "1.IH" by simp
      with inside False split show ?thesis
        by (simp add: deleteMovie_loop.simps [of pid i movies] take_Suc_conv_app_nth)
    qed
  qed
qed

lemma getMovie_loop_from:
  "getMovie_loop pid i movies w =
     (case find (\<lambda>m. ID m = pid) (drop i movies) of
        None \<Rightarrow> w | Some m \<Rightarrow> Encode (EncMovie m) w)"
proof (induction pid i movies w rule: getMovie_loop.induct)
  case (1 pid i movies w)
  show ?case
  proof (cases "i < length movies")
    case False
    then show ?thesis
      by (simp add: getMovie_loop.simps [of pid i movies w])
  next
    case inside: True
    then have split: "drop i movies = movies ! i # drop (Suc i) movies"
      by (simp add: Cons_nth_drop_Suc)
    show ?thesis
    proof (cases "ID (movies ! i) = pid")
      case True
      with inside split show ?thesis
        by (simp add: getMovie_loop.simps [of pid i movies w])
    next
      case False
      with inside have "getMovie_loop pid (i + 1) movies w =
          (case find (\<lambda>m. ID m = pid) (drop (i + 1) movies) of
             None \<Rightarrow> w | Some m \<Rightarrow> Encode (EncMovie m) w)"
        using "1.IH" by simp
      with inside False split show ?thesis
        by (simp add: getMovie_loop.simps [of pid i movies w])
    qed
  qed
qed

lemma updateMovie_loop_from:
  "i \<le> length movies \<Longrightarrow>
   updateMovie_loop Decode r i w movies =
     (case find (\<lambda>m. ID m = params r ''id'') (drop i movies) of
        None \<Rightarrow> (w, movies)
      | Some m \<Rightarrow>
         (Encode (EncMovie ((snd (Decode (Body r) zero_Movie))\<lparr>ID := params r ''id''\<rparr>)) w,
          take i movies @ takeWhile (\<lambda>m. ID m \<noteq> params r ''id'') (drop i movies)
            @ tl (dropWhile (\<lambda>m. ID m \<noteq> params r ''id'') (drop i movies))
            @ [(snd (Decode (Body r) zero_Movie))\<lparr>ID := params r ''id''\<rparr>]))"
proof (induction Decode r i w movies rule: updateMovie_loop.induct)
  case (1 Decode r i w movies)
  show ?case
  proof (cases "i < length movies")
    case False
    with "1.prems" show ?thesis
      by (subst updateMovie_loop.simps) simp
  next
    case inside: True
    then have split: "drop i movies = movies ! i # drop (Suc i) movies"
      by (simp add: Cons_nth_drop_Suc)
    show ?thesis
    proof (cases "ID (movies ! i) = params r ''id''")
      case True
      with inside split show ?thesis
        by (simp add: updateMovie_loop.simps [of Decode r i w movies] Let_def)
    next
      case False
      with inside have "updateMovie_loop Decode r (i + 1) w movies =
     (case find (\<lambda>m. ID m = params r ''id'') (drop (i + 1) movies) of
        None \<Rightarrow> (w, movies)
      | Some m \<Rightarrow>
         (Encode (EncMovie ((snd (Decode (Body r) zero_Movie))\<lparr>ID := params r ''id''\<rparr>)) w,
          take (i + 1) movies @ takeWhile (\<lambda>m. ID m \<noteq> params r ''id'') (drop (i + 1) movies)
            @ tl (dropWhile (\<lambda>m. ID m \<noteq> params r ''id'') (drop (i + 1) movies))
            @ [(snd (Decode (Body r) zero_Movie))\<lparr>ID := params r ''id''\<rparr>]))"
        using "1.IH" by simp
      with inside False split show ?thesis
        by (simp add: updateMovie_loop.simps [of Decode r i w movies] take_Suc_conv_app_nth
            split: option.splits)
    qed
  qed
qed

text \<open>The first element of a list that fails a test, by its index.\<close>

lemma first_match_index:
  assumes "\<exists>m \<in> set xs. \<not> Q m"
  defines "k \<equiv> length (takeWhile Q xs)"
  shows "k < length xs" and "\<not> Q (xs ! k)" and "\<forall>j<k. Q (xs ! j)"
    and "takeWhile Q xs = take k xs" and "tl (dropWhile Q xs) = drop (Suc k) xs"
proof -
  show lt: "k < length xs"
  proof (rule ccontr)
    assume "\<not> k < length xs"
    then have "length (takeWhile Q xs) = length xs"
      using length_takeWhile_le [of Q xs] unfolding k_def by simp
    then have "takeWhile Q xs = xs"
      using takeWhile_eq_take [of Q xs] by simp
    with assms(1) show False by simp
  qed
  show "\<not> Q (xs ! k)"
    using lt unfolding k_def by (rule nth_length_takeWhile)
  show "\<forall>j<k. Q (xs ! j)"
  proof (intro allI impI)
    fix j assume "j < k"
    then have "takeWhile Q xs ! j \<in> set (takeWhile Q xs)"
      unfolding k_def by simp
    moreover have "takeWhile Q xs ! j = xs ! j"
      using \<open>j < k\<close> unfolding k_def by (rule takeWhile_nth)
    ultimately show "Q (xs ! j)"
      by (auto dest: set_takeWhileD)
  qed
  show "takeWhile Q xs = take k xs"
    unfolding k_def by (rule takeWhile_eq_take)
  show "tl (dropWhile Q xs) = drop (Suc k) xs"
    unfolding k_def by (simp add: dropWhile_eq_drop tl_drop_Suc)
qed

section \<open>Decimal rendering\<close>

lemma of_char_digit: "d < 10 \<Longrightarrow> (of_char (char_of (48 + d :: nat)) :: nat) = 48 + d"
  by simp

lemma decimal_value_snoc:
  "decimal_value (s @ [c]) = 10 * decimal_value s + (of_char c - 48)"
  by (simp add: decimal_value_def)

lemma is_digit_char_of: "d < 10 \<Longrightarrow> is_digit (char_of (48 + d :: nat))"
  by (simp add: is_digit_def)

lemma digits_all_digit: "list_all is_digit (digits n)"
proof (induction n rule: digits.induct)
  case (1 n)
  show ?case
  proof (cases "n < 10")
    case True
    then show ?thesis
      by (subst digits.simps) (simp add: is_digit_char_of)
  next
    case False
    moreover have "n mod 10 < 10" by simp
    ultimately show ?thesis
      using "1.IH" by (subst digits.simps) (simp add: is_digit_char_of)
  qed
qed

lemma decimal_value_digits: "decimal_value (digits n) = n"
proof (induction n rule: digits.induct)
  case (1 n)
  show ?case
  proof (cases "n < 10")
    case True
    then show ?thesis
      by (subst digits.simps) (simp add: decimal_value_def)
  next
    case False
    then have "decimal_value (digits (n div 10)) = n div 10"
      using "1.IH" by simp
    moreover have "n mod 10 < 10" by simp
    ultimately show ?thesis
      using False by (subst digits.simps) (simp add: decimal_value_snoc)
  qed
qed

lemma length_digits: "n < 10 ^ k \<Longrightarrow> 0 < k \<Longrightarrow> length (digits n) \<le> k"
proof (induction n arbitrary: k rule: digits.induct)
  case (1 n)
  show ?case
  proof (cases "n < 10")
    case True
    with "1.prems" show ?thesis
      by (subst digits.simps) simp
  next
    case False
    with "1.prems" obtain k' where k: "k = Suc k'" "0 < k'"
      by (cases k; cases "k - 1") auto
    with "1.prems" have "n div 10 < 10 ^ k'"
      by (simp add: less_mult_imp_div_less mult.commute)
    with False k have "length (digits (n div 10)) \<le> k'"
      using "1.IH" by simp
    with False k show ?thesis
      by (subst digits.simps) simp
  qed
qed

section \<open>The handlers as list functions\<close>

lemma deleteMovie_eq:
  "deleteMovie r w movies =
     (Header_Set ''Content-Type'' ''application/json'' w,
      takeWhile (\<lambda>m. ID m \<noteq> params r ''id'') movies
        @ tl (dropWhile (\<lambda>m. ID m \<noteq> params r ''id'') movies))"
  by (simp add: deleteMovie_def deleteMovie_loop_from Let_def)

lemma getMovie_eq:
  "getMovie r w movies =
     (case find (\<lambda>m. ID m = params r ''id'') movies of
        None \<Rightarrow> Header_Set ''Content-Type'' ''application/json'' w
      | Some m \<Rightarrow> Encode (EncMovie m) (Header_Set ''Content-Type'' ''application/json'' w),
      movies)"
  by (simp add: getMovie_def getMovie_loop_from Let_def)

lemma updateMovie_eq:
  "updateMovie Decode r w movies =
     (case find (\<lambda>m. ID m = params r ''id'') movies of
        None \<Rightarrow> (Header_Set ''Content-Type'' ''application/json'' w, movies)
      | Some m \<Rightarrow>
         (Encode (EncMovie ((snd (Decode (Body r) zero_Movie))\<lparr>ID := params r ''id''\<rparr>))
            (Header_Set ''Content-Type'' ''application/json'' w),
          takeWhile (\<lambda>m. ID m \<noteq> params r ''id'') movies
            @ tl (dropWhile (\<lambda>m. ID m \<noteq> params r ''id'') movies)
            @ [(snd (Decode (Body r) zero_Movie))\<lparr>ID := params r ''id''\<rparr>]))"
  by (simp add: updateMovie_def updateMovie_loop_from Let_def split: option.splits)

lemma find_None_absent: "(find P xs = None) = (\<forall>x \<in> set xs. \<not> P x)"
  by (auto simp: find_None_iff)

lemma find_first_index:
  assumes "k < length xs" and "P (xs ! k)" and "\<forall>j<k. \<not> P (xs ! j)"
  shows "find P xs = Some (xs ! k)"
  using assms
proof (induction xs arbitrary: k)
  case Nil
  then show ?case by simp
next
  case (Cons x xs)
  show ?case
  proof (cases k)
    case 0
    with Cons.prems show ?thesis by simp
  next
    case (Suc k')
    with Cons.prems have "\<not> P x" by auto
    moreover from Suc Cons.prems have "find P xs = Some (xs ! k')"
      by (intro Cons.IH) auto
    ultimately show ?thesis using Suc by simp
  qed
qed

lemma Written_Header_Set [simp]: "Written (Header_Set k v w) = Written w"
  by (simp add: Header_Set_def)

lemma WroteHeader_Header_Set [simp]: "WroteHeader (Header_Set k v w) = WroteHeader w"
  by (simp add: Header_Set_def)

lemma Written_Encode [simp]: "Written (Encode v w) = Written w @ [v]"
  by (simp add: Encode_def)

lemma WroteHeader_Encode [simp]: "WroteHeader (Encode v w) = WroteHeader w"
  by (simp add: Encode_def)

lemma Written_new [simp]: "Written new_ResponseWriter = []"
  by (simp add: new_ResponseWriter_def)

lemma response_status_new: "WroteHeader w = WroteHeader new_ResponseWriter \<Longrightarrow> response_status w = 200"
  by (simp add: response_status_def new_ResponseWriter_def)

text \<open>Removing the first element that passes a test, and what a later search finds.\<close>

lemma find_filter_hd:
  "find P xs = (case filter P xs of [] \<Rightarrow> None | x # _ \<Rightarrow> Some x)"
  by (induction xs) auto

lemma filter_remove_first:
  "filter P (takeWhile (\<lambda>x. \<not> P x) xs @ tl (dropWhile (\<lambda>x. \<not> P x) xs)) = tl (filter P xs)"
  by (induction xs) auto

lemma remove_first_absent:
  "\<forall>x \<in> set xs. \<not> P x \<Longrightarrow> takeWhile (\<lambda>x. \<not> P x) xs @ tl (dropWhile (\<lambda>x. \<not> P x) xs) = xs"
  by (induction xs) auto

lemma length_remove_first:
  "length xs \<le> length (takeWhile Q xs @ tl (dropWhile Q xs)) + 1"
  by (induction xs) auto

lemma length_remove_first_le:
  "length (takeWhile Q xs @ tl (dropWhile Q xs)) \<le> length xs"
  by (induction xs) auto

section \<open>Evaluation at concrete inputs\<close>

lemma char_of_digits:
  "char_of (48::nat) = CHR ''0''" "char_of (49::nat) = CHR ''1''" "char_of (50::nat) = CHR ''2''"
  "char_of (51::nat) = CHR ''3''" "char_of (52::nat) = CHR ''4''" "char_of (53::nat) = CHR ''5''"
  "char_of (54::nat) = CHR ''6''" "char_of (55::nat) = CHR ''7''" "char_of (56::nat) = CHR ''8''"
  "char_of (57::nat) = CHR ''9''"
  by code_simp+

lemma Itoa_1: "Itoa 1 = ''1''"
  by (simp add: Itoa_def digits.simps char_of_digits)

lemma Itoa_424242: "Itoa 424242 = ''424242''"
  by (simp add: Itoa_def digits.simps char_of_digits)

lemma length_main_movies: "length main_movies = 2"
  by (simp add: main_movies_def)

lemma response_status_createMovie:
  "response_status (fst (createMovie Decode Intn r new_ResponseWriter movies)) = 200"
  by (rule response_status_new) (simp add: createMovie_def Let_def)

lemma readValue_oops: \<open>readValue ''{oops'' = None\<close>
  by (simp add: readValue_def stateBeginValue_def stateBeginString_def isSpace_def)

lemma readValue_trailing:
  \<open>readValue ''{"isbn":"i","title":"t"} trailing'' =
     Some (''{"isbn":"i","title":"t"}'', '' trailing'')\<close>
  by (simp add: readValue_def stateBeginValue_def stateBeginString_def isSpace_def popParseState_def)

lemma not_Valid_trailing: \<open>\<not> Valid ''{"isbn":"i","title":"t"} trailing''\<close>
  by (simp add: Valid_def stateBeginValue_def stateBeginString_def isSpace_def popParseState_def)

section \<open>The start state\<close>

text \<open>
  C8. After \<^verbatim>\<open>main\<close> has initialised the store and before any other request, the
  collection is exactly the record with id "1", isbn "123456", title "Movie One" and
  director Lebron James, followed by the record with id "2", isbn "654321", title
  "Movie Two" and director Joe Biden; GET /movies leaves the collection as it is and
  writes exactly that sequence, once, with content type application/json and status 200.
\<close>

theorem start_state_two_seed_records:
  "main_movies =
     [\<lparr>ID = ''1'', Isbn = ''123456'', Title = ''Movie One'',
        Director = Some \<lparr>Firstname = ''Lebron'', Lastname = ''James''\<rparr>\<rparr>,
      \<lparr>ID = ''2'', Isbn = ''654321'', Title = ''Movie Two'',
        Director = Some \<lparr>Firstname = ''Joe'', Lastname = ''Biden''\<rparr>\<rparr>]
   \<and> snd (getMovies r new_ResponseWriter main_movies) = main_movies
   \<and> Written (fst (getMovies r new_ResponseWriter main_movies)) = [EncMovies main_movies]
   \<and> Header (fst (getMovies r new_ResponseWriter main_movies)) ''Content-Type'' = Some ''application/json''
   \<and> response_status (fst (getMovies r new_ResponseWriter main_movies)) = 200"
  by (simp add: main_movies_def getMovies_def Header_Set_def Encode_def
      new_ResponseWriter_def response_status_def)

section \<open>Reading one record\<close>

text \<open>
  C3. GET /movies/{id} never changes the collection and answers with status 200. When
  some record carries the path id, the body is the single encoding of the first such
  record in collection order (the record at the least index \<open>k\<close> with that id, so
  the first one wins among duplicates); when no record carries it, the body is empty.
\<close>

theorem getMovie_first_match_or_empty:
  "snd (getMovie r w movies) = movies
   \<and> response_status (fst (getMovie r new_ResponseWriter movies)) = 200
   \<and> (\<forall>k<length movies.
         ID (movies ! k) = params r ''id'' \<and> (\<forall>j<k. ID (movies ! j) \<noteq> params r ''id'')
         \<longrightarrow> Written (fst (getMovie r new_ResponseWriter movies)) = [EncMovie (movies ! k)])
   \<and> ((\<forall>m \<in> set movies. ID m \<noteq> params r ''id'')
         \<longrightarrow> Written (fst (getMovie r new_ResponseWriter movies)) = [])"
proof (intro conjI allI impI)
  show "snd (getMovie r w movies) = movies"
    by (simp add: getMovie_eq)
  show "response_status (fst (getMovie r new_ResponseWriter movies)) = 200"
    by (rule response_status_new) (simp add: getMovie_eq split: option.splits)
next
  fix k
  assume "k < length movies"
    and "ID (movies ! k) = params r ''id'' \<and> (\<forall>j<k. ID (movies ! j) \<noteq> params r ''id'')"
  then have "find (\<lambda>m. ID m = params r ''id'') movies = Some (movies ! k)"
    by (intro find_first_index) auto
  then show "Written (fst (getMovie r new_ResponseWriter movies)) = [EncMovie (movies ! k)]"
    by (simp add: getMovie_eq)
next
  assume "\<forall>m \<in> set movies. ID m \<noteq> params r ''id''"
  then have "find (\<lambda>m. ID m = params r ''id'') movies = None"
    by (simp add: find_None_absent)
  then show "Written (fst (getMovie r new_ResponseWriter movies)) = []"
    by (simp add: getMovie_eq)
qed

text \<open>
  On the start state: GET /movies/1 answers with the first seed record, GET /movies/999
  with an empty body.
\<close>

theorem getMovie_first_match_or_empty_witness:
  "Written (fst (getMovie \<lparr>Vars = [''id'' \<mapsto> ''1''], Body = []\<rparr> new_ResponseWriter main_movies)) =
     [EncMovie \<lparr>ID = ''1'', Isbn = ''123456'', Title = ''Movie One'',
        Director = Some \<lparr>Firstname = ''Lebron'', Lastname = ''James''\<rparr>\<rparr>]
   \<and> Written (fst (getMovie \<lparr>Vars = [''id'' \<mapsto> ''999''], Body = []\<rparr> new_ResponseWriter main_movies)) = []"
proof -
  let ?r1 = "\<lparr>Vars = [''id'' \<mapsto> ''1''], Body = []\<rparr>"
  let ?r9 = "\<lparr>Vars = [''id'' \<mapsto> ''999''], Body = []\<rparr>"
  have first: "0 < length main_movies \<and> ID (main_movies ! 0) = params ?r1 ''id''
      \<and> (\<forall>j<0. ID (main_movies ! j) \<noteq> params ?r1 ''id'')"
    by (simp add: main_movies_def params_def)
  have absent: "\<forall>m \<in> set main_movies. ID m \<noteq> params ?r9 ''id''"
    by (simp add: main_movies_def params_def)
  have "Written (fst (getMovie ?r1 new_ResponseWriter main_movies)) = [EncMovie (main_movies ! 0)]"
    using getMovie_first_match_or_empty [of ?r1 new_ResponseWriter main_movies] first by blast
  moreover have "Written (fst (getMovie ?r9 new_ResponseWriter main_movies)) = []"
    using getMovie_first_match_or_empty [of ?r9 new_ResponseWriter main_movies] absent by blast
  ultimately show ?thesis
    by (simp add: main_movies_def)
qed

section \<open>Deleting a record\<close>

text \<open>
  C4. When some record carries the path id, DELETE /movies/{id} removes the record at
  the least index \<open>k\<close> with that id and nothing else: the collection afterwards is
  the records before \<open>k\<close> followed by the records after \<open>k\<close>, in their old order,
  it is shorter by exactly one, and the handler writes nothing to the body.
\<close>

theorem deleteMovie_removes_first_match:
  assumes "\<exists>m \<in> set movies. ID m = params r ''id''"
  shows "\<exists>k<length movies.
           ID (movies ! k) = params r ''id''
         \<and> (\<forall>j<k. ID (movies ! j) \<noteq> params r ''id'')
         \<and> snd (deleteMovie r w movies) = take k movies @ drop (Suc k) movies
         \<and> length (snd (deleteMovie r w movies)) + 1 = length movies
         \<and> Written (fst (deleteMovie r w movies)) = Written w
         \<and> Written (fst (deleteMovie r new_ResponseWriter movies)) = []"
proof -
  define k where "k = length (takeWhile (\<lambda>m. ID m \<noteq> params r ''id'') movies)"
  from assms have ex: "\<exists>m \<in> set movies. \<not> ID m \<noteq> params r ''id''"
    by simp
  note fm = first_match_index [OF ex, folded k_def]
  have res: "snd (deleteMovie r w movies) = take k movies @ drop (Suc k) movies"
    using fm(4,5) by (simp add: deleteMovie_eq)
  have "length (snd (deleteMovie r w movies)) + 1 = length movies"
    using fm(1) unfolding res by simp
  with fm(1,2,3) res show ?thesis
    by (intro exI [of _ k]) (simp add: deleteMovie_eq)
qed

text \<open>
  On the start state, DELETE /movies/2 leaves the first seed record alone.
\<close>

theorem deleteMovie_removes_first_match_witness:
  "snd (deleteMovie \<lparr>Vars = [''id'' \<mapsto> ''2''], Body = []\<rparr> new_ResponseWriter main_movies) =
     [\<lparr>ID = ''1'', Isbn = ''123456'', Title = ''Movie One'',
        Director = Some \<lparr>Firstname = ''Lebron'', Lastname = ''James''\<rparr>\<rparr>]
   \<and> Written (fst (deleteMovie \<lparr>Vars = [''id'' \<mapsto> ''2''], Body = []\<rparr> new_ResponseWriter main_movies)) = []"
proof -
  let ?r2 = "\<lparr>Vars = [''id'' \<mapsto> ''2''], Body = []\<rparr>"
  have "\<exists>m \<in> set main_movies. ID m = params ?r2 ''id''"
    by (simp add: main_movies_def params_def)
  from deleteMovie_removes_first_match [OF this, of new_ResponseWriter]
  obtain k where k: "k < length main_movies" "ID (main_movies ! k) = params ?r2 ''id''"
    and res: "snd (deleteMovie ?r2 new_ResponseWriter main_movies) =
        take k main_movies @ drop (Suc k) main_movies"
    and body: "Written (fst (deleteMovie ?r2 new_ResponseWriter main_movies)) = []"
    by blast
  from k(1) have "k = 0 \<or> k = 1"
    by (auto simp: length_main_movies)
  with k(2) have "k = 1"
    by (auto simp: main_movies_def params_def)
  with res body show ?thesis
    by (simp add: main_movies_def)
qed

text \<open>
  C10. A DELETE request removes at most one record. When two or more records carry the
  path id, it removes the one at the least index and keeps the others, and a GET for
  the same id right afterwards writes a record and not an empty body: the one that was
  the second with that id before the delete.
\<close>

theorem deleteMovie_removes_only_earliest_duplicate:
  "length movies \<le> length (snd (deleteMovie r w movies)) + 1
   \<and> length (snd (deleteMovie r w movies)) \<le> length movies
   \<and> (2 \<le> length (filter (\<lambda>m. ID m = params r ''id'') movies) \<longrightarrow>
        (\<exists>k<length movies.
            ID (movies ! k) = params r ''id''
          \<and> (\<forall>j<k. ID (movies ! j) \<noteq> params r ''id'')
          \<and> snd (deleteMovie r w movies) = take k movies @ drop (Suc k) movies
          \<and> ID (filter (\<lambda>m. ID m = params r ''id'') movies ! 1) = params r ''id''
          \<and> Written (fst (getMovie r new_ResponseWriter (snd (deleteMovie r w movies)))) =
               [EncMovie (filter (\<lambda>m. ID m = params r ''id'') movies ! 1)]))"
proof (intro conjI impI)
  show "length movies \<le> length (snd (deleteMovie r w movies)) + 1"
    by (simp only: deleteMovie_eq snd_conv length_remove_first)
next
  show "length (snd (deleteMovie r w movies)) \<le> length movies"
    by (simp only: deleteMovie_eq snd_conv length_remove_first_le)
next
  let ?P = "\<lambda>m. ID m = params r ''id''"
  assume two: "2 \<le> length (filter ?P movies)"
  define k where "k = length (takeWhile (\<lambda>m. ID m \<noteq> params r ''id'') movies)"
  from two have "filter ?P movies \<noteq> []"
    by auto
  then have ex: "\<exists>m \<in> set movies. \<not> ID m \<noteq> params r ''id''"
    by (auto simp: filter_empty_conv)
  note fm = first_match_index [OF ex, folded k_def]
  have res: "snd (deleteMovie r w movies) = take k movies @ drop (Suc k) movies"
    using fm(4,5) by (simp add: deleteMovie_eq)
  from two obtain a b rest where fl: "filter ?P movies = a # b # rest"
    by (cases "filter ?P movies"; cases "tl (filter ?P movies)") auto
  then have snd_match: "filter ?P movies ! 1 = b"
    by simp
  have "b \<in> set (filter ?P movies)"
    using fl by simp
  then have idb: "ID b = params r ''id''"
    by simp
  have "filter ?P (snd (deleteMovie r w movies)) = tl (filter ?P movies)"
    using filter_remove_first [of ?P movies] by (simp add: deleteMovie_eq)
  with fl have "find ?P (snd (deleteMovie r w movies)) = Some b"
    by (simp add: find_filter_hd)
  then have "Written (fst (getMovie r new_ResponseWriter (snd (deleteMovie r w movies)))) = [EncMovie b]"
    by (simp add: getMovie_eq)
  with fm(1,2,3) res snd_match idb
  show "\<exists>k<length movies.
            ID (movies ! k) = params r ''id''
          \<and> (\<forall>j<k. ID (movies ! j) \<noteq> params r ''id'')
          \<and> snd (deleteMovie r w movies) = take k movies @ drop (Suc k) movies
          \<and> ID (filter ?P movies ! 1) = params r ''id''
          \<and> Written (fst (getMovie r new_ResponseWriter (snd (deleteMovie r w movies)))) =
               [EncMovie (filter ?P movies ! 1)]"
    by (intro exI [of _ k]) simp
qed

text \<open>
  The start state followed by a third record whose id is again "1": after DELETE /movies/1,
  GET /movies/1 answers with that third record.
\<close>

theorem deleteMovie_removes_only_earliest_duplicate_witness:
  "Written (fst (getMovie \<lparr>Vars = [''id'' \<mapsto> ''1''], Body = []\<rparr> new_ResponseWriter
      (snd (deleteMovie \<lparr>Vars = [''id'' \<mapsto> ''1''], Body = []\<rparr> new_ResponseWriter
         (main_movies @ [\<lparr>ID = ''1'', Isbn = ''999'', Title = ''New'', Director = None\<rparr>]))))) =
     [EncMovie \<lparr>ID = ''1'', Isbn = ''999'', Title = ''New'', Director = None\<rparr>]"
proof -
  let ?r1 = "\<lparr>Vars = [''id'' \<mapsto> ''1''], Body = []\<rparr>"
  let ?ms = "main_movies @ [\<lparr>ID = ''1'', Isbn = ''999'', Title = ''New'', Director = None\<rparr>]"
  have two: "2 \<le> length (filter (\<lambda>m. ID m = params ?r1 ''id'') ?ms)"
    by (simp add: main_movies_def params_def)
  have snd_match: "filter (\<lambda>m. ID m = params ?r1 ''id'') ?ms ! 1 =
      \<lparr>ID = ''1'', Isbn = ''999'', Title = ''New'', Director = None\<rparr>"
    by (simp add: main_movies_def params_def)
  from deleteMovie_removes_only_earliest_duplicate [of ?ms ?r1 new_ResponseWriter] two
  have "Written (fst (getMovie ?r1 new_ResponseWriter (snd (deleteMovie ?r1 new_ResponseWriter ?ms)))) =
      [EncMovie (filter (\<lambda>m. ID m = params ?r1 ''id'') ?ms ! 1)]"
    by blast
  then show ?thesis
    by (simp only: snd_match)
qed

text \<open>
  C6, as the code has it. Deleting an id that no record carries leaves the collection
  unchanged, and a DELETE response is the same whether or not a record was removed: the
  content type is set and the body stays empty. For every id that at most one record
  carries, two DELETE requests in a row leave the same collection and give the same
  response as one. (With duplicate ids each request removes one more record.)
\<close>

theorem deleteMovie_twice_same_as_once_when_id_unique:
  assumes "length (filter (\<lambda>m. ID m = params r ''id'') movies) \<le> 1"
  shows "snd (deleteMovie r w' (snd (deleteMovie r w movies))) = snd (deleteMovie r w movies)
       \<and> fst (deleteMovie r w (snd (deleteMovie r w movies))) = fst (deleteMovie r w movies)
       \<and> Written (fst (deleteMovie r new_ResponseWriter movies)) = []
       \<and> ((\<forall>m \<in> set movies. ID m \<noteq> params r ''id'') \<longrightarrow>
            snd (deleteMovie r w movies) = movies)"
proof (intro conjI impI)
  let ?P = "\<lambda>m. ID m = params r ''id''"
  have "filter ?P (snd (deleteMovie r w movies)) = tl (filter ?P movies)"
    using filter_remove_first [of ?P movies] by (simp add: deleteMovie_eq)
  moreover from assms have "tl (filter ?P movies) = []"
    by (cases "filter ?P movies") auto
  ultimately have "\<forall>m \<in> set (snd (deleteMovie r w movies)). \<not> ?P m"
    by (simp add: filter_empty_conv)
  then have "takeWhile (\<lambda>m. \<not> ?P m) (snd (deleteMovie r w movies))
      @ tl (dropWhile (\<lambda>m. \<not> ?P m) (snd (deleteMovie r w movies))) = snd (deleteMovie r w movies)"
    by (rule remove_first_absent)
  then show "snd (deleteMovie r w' (snd (deleteMovie r w movies))) = snd (deleteMovie r w movies)"
    by (simp add: deleteMovie_eq)
next
  show "fst (deleteMovie r w (snd (deleteMovie r w movies))) = fst (deleteMovie r w movies)"
    by (simp add: deleteMovie_eq)
next
  show "Written (fst (deleteMovie r new_ResponseWriter movies)) = []"
    by (simp add: deleteMovie_eq)
next
  assume "\<forall>m \<in> set movies. ID m \<noteq> params r ''id''"
  then have "takeWhile (\<lambda>m. \<not> ID m = params r ''id'') movies
      @ tl (dropWhile (\<lambda>m. \<not> ID m = params r ''id'') movies) = movies"
    by (intro remove_first_absent) simp
  then show "snd (deleteMovie r w movies) = movies"
    by (simp add: deleteMovie_eq)
qed

text \<open>
  On the start state: the id "2", which one record carries, and the id "999", which none
  carries.
\<close>

theorem deleteMovie_twice_same_as_once_when_id_unique_witness:
  "snd (deleteMovie \<lparr>Vars = [''id'' \<mapsto> ''2''], Body = []\<rparr> new_ResponseWriter
        (snd (deleteMovie \<lparr>Vars = [''id'' \<mapsto> ''2''], Body = []\<rparr> new_ResponseWriter main_movies))) =
     snd (deleteMovie \<lparr>Vars = [''id'' \<mapsto> ''2''], Body = []\<rparr> new_ResponseWriter main_movies)
   \<and> snd (deleteMovie \<lparr>Vars = [''id'' \<mapsto> ''999''], Body = []\<rparr> new_ResponseWriter main_movies) =
     main_movies"
proof -
  let ?r2 = "\<lparr>Vars = [''id'' \<mapsto> ''2''], Body = []\<rparr>"
  let ?r9 = "\<lparr>Vars = [''id'' \<mapsto> ''999''], Body = []\<rparr>"
  have once: "length (filter (\<lambda>m. ID m = params ?r2 ''id'') main_movies) \<le> 1"
    by (simp add: main_movies_def params_def)
  have none: "length (filter (\<lambda>m. ID m = params ?r9 ''id'') main_movies) \<le> 1"
    by (simp add: main_movies_def params_def)
  have absent: "\<forall>m \<in> set main_movies. ID m \<noteq> params ?r9 ''id''"
    by (simp add: main_movies_def params_def)
  from deleteMovie_twice_same_as_once_when_id_unique [OF once, of new_ResponseWriter new_ResponseWriter]
  have "snd (deleteMovie ?r2 new_ResponseWriter (snd (deleteMovie ?r2 new_ResponseWriter main_movies))) =
      snd (deleteMovie ?r2 new_ResponseWriter main_movies)"
    by blast
  moreover
  from deleteMovie_twice_same_as_once_when_id_unique [OF none, of new_ResponseWriter new_ResponseWriter] absent
  have "snd (deleteMovie ?r9 new_ResponseWriter main_movies) = main_movies"
    by blast
  ultimately show ?thesis
    by blast
qed

text \<open>
  Where two requests differ from one: POST /movies with the draw 1 on the start state gives
  the ids "1", "2", "1"; one DELETE /movies/1 leaves "2", "1" and a second one leaves "2".
\<close>

theorem deleteMovie_twice_differs_with_duplicate_ids_counterexample:
  \<open>map ID (snd (createMovie (\<lambda>b m. (None, m\<lparr>Isbn := ''999'', Title := ''New''\<rparr>)) (\<lambda>n. 1)
       \<lparr>Vars = Map.empty, Body = ''{"isbn":"999","title":"New"}''\<rparr> new_ResponseWriter main_movies)) = [''1'', ''2'', ''1'']
   \<and> map ID (snd (deleteMovie \<lparr>Vars = [''id'' \<mapsto> ''1''], Body = []\<rparr> new_ResponseWriter
       (snd (createMovie (\<lambda>b m. (None, m\<lparr>Isbn := ''999'', Title := ''New''\<rparr>)) (\<lambda>n. 1)
          \<lparr>Vars = Map.empty, Body = ''{"isbn":"999","title":"New"}''\<rparr> new_ResponseWriter main_movies)))) = [''2'', ''1'']
   \<and> map ID (snd (deleteMovie \<lparr>Vars = [''id'' \<mapsto> ''1''], Body = []\<rparr> new_ResponseWriter
       (snd (deleteMovie \<lparr>Vars = [''id'' \<mapsto> ''1''], Body = []\<rparr> new_ResponseWriter
          (snd (createMovie (\<lambda>b m. (None, m\<lparr>Isbn := ''999'', Title := ''New''\<rparr>)) (\<lambda>n. 1)
             \<lparr>Vars = Map.empty, Body = ''{"isbn":"999","title":"New"}''\<rparr> new_ResponseWriter main_movies)))))) = [''2'']
   \<and> snd (deleteMovie \<lparr>Vars = [''id'' \<mapsto> ''1''], Body = []\<rparr> new_ResponseWriter
       (snd (deleteMovie \<lparr>Vars = [''id'' \<mapsto> ''1''], Body = []\<rparr> new_ResponseWriter
          (snd (createMovie (\<lambda>b m. (None, m\<lparr>Isbn := ''999'', Title := ''New''\<rparr>)) (\<lambda>n. 1)
             \<lparr>Vars = Map.empty, Body = ''{"isbn":"999","title":"New"}''\<rparr> new_ResponseWriter main_movies))))) \<noteq>
     snd (deleteMovie \<lparr>Vars = [''id'' \<mapsto> ''1''], Body = []\<rparr> new_ResponseWriter
       (snd (createMovie (\<lambda>b m. (None, m\<lparr>Isbn := ''999'', Title := ''New''\<rparr>)) (\<lambda>n. 1)
          \<lparr>Vars = Map.empty, Body = ''{"isbn":"999","title":"New"}''\<rparr> new_ResponseWriter main_movies)))\<close>
  by (simp add: createMovie_def deleteMovie_eq Let_def Itoa_1 main_movies_def params_def)

section \<open>Updating a record\<close>

text \<open>
  C5. When no record carries the path id, PUT /movies/{id} leaves the collection as it
  was and writes nothing to the body.
\<close>

theorem updateMovie_no_match_no_change:
  assumes "\<forall>m \<in> set movies. ID m \<noteq> params r ''id''"
  shows "snd (updateMovie Decode r w movies) = movies
       \<and> Written (fst (updateMovie Decode r w movies)) = Written w
       \<and> Written (fst (updateMovie Decode r new_ResponseWriter movies)) = []"
proof -
  from assms have "find (\<lambda>m. ID m = params r ''id'') movies = None"
    by (simp add: find_None_absent)
  then show ?thesis
    by (simp add: updateMovie_eq)
qed

text \<open>
  On the start state, PUT /movies/999 changes nothing.
\<close>

theorem updateMovie_no_match_no_change_witness:
  \<open>snd (updateMovie (\<lambda>b m. (None, m\<lparr>ID := ''7'', Title := ''New''\<rparr>))
       \<lparr>Vars = [''id'' \<mapsto> ''999''], Body = ''{"id":"7","title":"New"}''\<rparr> new_ResponseWriter main_movies) = main_movies
   \<and> Written (fst (updateMovie (\<lambda>b m. (None, m\<lparr>ID := ''7'', Title := ''New''\<rparr>))
       \<lparr>Vars = [''id'' \<mapsto> ''999''], Body = ''{"id":"7","title":"New"}''\<rparr> new_ResponseWriter main_movies)) = []\<close>
proof -
  let ?r9 = \<open>\<lparr>Vars = [''id'' \<mapsto> ''999''], Body = ''{"id":"7","title":"New"}''\<rparr>\<close>
  have \<open>\<forall>m \<in> set main_movies. ID m \<noteq> params ?r9 ''id''\<close>
    by (simp add: main_movies_def params_def)
  from updateMovie_no_match_no_change [OF this] show ?thesis
    by blast
qed

text \<open>
  C1, as the code has it. When some record carries the path id, PUT /movies/{id} removes
  the record at the least index \<open>k\<close> with that id, decodes the body into a fresh
  Movie, overwrites its id with the path id whatever id the body names, and appends it.
  The collection afterwards is the records before \<open>k\<close>, then the records after
  \<open>k\<close>, in their old order, then the new record; its length is unchanged; the new
  record is last, and it is what the response encodes. When the replaced record was not
  the last one, the slot \<open>k\<close> now holds the record that followed it, so the updated
  record has moved; when it was the last one, the new record stands where the old one
  stood.
\<close>

theorem updateMovie_replaces_first_match_at_end:
  assumes "\<exists>m \<in> set movies. ID m = params r ''id''"
  shows "\<exists>k<length movies.
           ID (movies ! k) = params r ''id''
         \<and> (\<forall>j<k. ID (movies ! j) \<noteq> params r ''id'')
         \<and> snd (updateMovie Decode r w movies) =
             take k movies @ drop (Suc k) movies
               @ [(snd (Decode (Body r) zero_Movie))\<lparr>ID := params r ''id''\<rparr>]
         \<and> ID (last (snd (updateMovie Decode r w movies))) = params r ''id''
         \<and> length (snd (updateMovie Decode r w movies)) = length movies
         \<and> (k + 1 < length movies \<longrightarrow> snd (updateMovie Decode r w movies) ! k = movies ! (k + 1))
         \<and> Written (fst (updateMovie Decode r new_ResponseWriter movies)) =
             [EncMovie (last (snd (updateMovie Decode r w movies)))]"
proof -
  define k where "k = length (takeWhile (\<lambda>m. ID m \<noteq> params r ''id'') movies)"
  from assms have ex: "\<exists>m \<in> set movies. \<not> ID m \<noteq> params r ''id''"
    by simp
  note fm = first_match_index [OF ex, folded k_def]
  from assms obtain m where found: "find (\<lambda>m. ID m = params r ''id'') movies = Some m"
    by (cases "find (\<lambda>m. ID m = params r ''id'') movies") (auto simp: find_None_absent)
  have res: "snd (updateMovie Decode r w movies) =
      take k movies @ drop (Suc k) movies
        @ [(snd (Decode (Body r) zero_Movie))\<lparr>ID := params r ''id''\<rparr>]"
    using found fm(4,5) by (simp add: updateMovie_eq)
  have len: "length (snd (updateMovie Decode r w movies)) = length movies"
    using fm(1) unfolding res by simp
  have moved: "k + 1 < length movies \<longrightarrow> snd (updateMovie Decode r w movies) ! k = movies ! (k + 1)"
    using fm(1) unfolding res by (simp add: nth_append)
  have body: "Written (fst (updateMovie Decode r new_ResponseWriter movies)) =
      [EncMovie (last (snd (updateMovie Decode r w movies)))]"
    unfolding res using found by (simp add: updateMovie_eq)
  have "ID (last (snd (updateMovie Decode r w movies))) = params r ''id''"
    unfolding res by simp
  with fm(1,2,3) res len moved body show ?thesis
    by (intro exI [of _ k]) simp
qed

text \<open>
  On the start state, PUT /movies/1 with a body naming the id "7" and the title "New":
  record "2" comes first and the new record, with id "1", is last.
\<close>

theorem updateMovie_replaces_first_match_at_end_witness:
  \<open>snd (updateMovie (\<lambda>b m. (None, m\<lparr>ID := ''7'', Title := ''New''\<rparr>))
       \<lparr>Vars = [''id'' \<mapsto> ''1''], Body = ''{"id":"7","title":"New"}''\<rparr> new_ResponseWriter main_movies) =
     [\<lparr>ID = ''2'', Isbn = ''654321'', Title = ''Movie Two'',
        Director = Some \<lparr>Firstname = ''Joe'', Lastname = ''Biden''\<rparr>\<rparr>,
      \<lparr>ID = ''1'', Isbn = [], Title = ''New'', Director = None\<rparr>]\<close>
proof -
  let ?D = \<open>\<lambda>(b::string) m. (None :: json_error option, m\<lparr>ID := ''7'', Title := ''New''\<rparr>)\<close>
  let ?r1 = \<open>\<lparr>Vars = [''id'' \<mapsto> ''1''], Body = ''{"id":"7","title":"New"}''\<rparr>\<close>
  have \<open>\<exists>m \<in> set main_movies. ID m = params ?r1 ''id''\<close>
    by (simp add: main_movies_def params_def)
  from updateMovie_replaces_first_match_at_end [OF this, of ?D new_ResponseWriter]
  obtain k where k: \<open>k < length main_movies\<close> \<open>ID (main_movies ! k) = params ?r1 ''id''\<close>
    and res: \<open>snd (updateMovie ?D ?r1 new_ResponseWriter main_movies) =
        take k main_movies @ drop (Suc k) main_movies
          @ [(snd (?D (Body ?r1) zero_Movie))\<lparr>ID := params ?r1 ''id''\<rparr>]\<close>
    by blast
  from k(1) have \<open>k = 0 \<or> k = 1\<close>
    by (auto simp: length_main_movies)
  with k(2) have \<open>k = 0\<close>
    by (auto simp: main_movies_def params_def)
  with res show ?thesis
    by (simp add: main_movies_def params_def zero_Movie_def)
qed

text \<open>
  Where the order does not change: on the start state, PUT /movies/2 replaces the last
  record. The record with id "2" is at index 1 before and after the request and the
  sequence of ids is the same.
\<close>

theorem updateMovie_last_record_keeps_its_place_counterexample:
  \<open>ID (main_movies ! 1) = ''2''
   \<and> ID (snd (updateMovie (\<lambda>b m. (None, m\<lparr>ID := ''7'', Title := ''New''\<rparr>))
       \<lparr>Vars = [''id'' \<mapsto> ''2''], Body = ''{"id":"7","title":"New"}''\<rparr> new_ResponseWriter main_movies) ! 1) = ''2''
   \<and> map ID (snd (updateMovie (\<lambda>b m. (None, m\<lparr>ID := ''7'', Title := ''New''\<rparr>))
       \<lparr>Vars = [''id'' \<mapsto> ''2''], Body = ''{"id":"7","title":"New"}''\<rparr> new_ResponseWriter main_movies)) = map ID main_movies\<close>
  by (simp add: updateMovie_eq main_movies_def params_def)

text \<open>
  C9. For any path id and any body, PUT /movies/{id} leaves the multiset of the ids in the
  collection as it was: a matching update swaps one record for a record with the same
  id, a non-matching one changes nothing, whatever id the body names.
\<close>

theorem updateMovie_preserves_id_multiset:
  "mset (map ID (snd (updateMovie Decode r w movies))) = mset (map ID movies)"
proof (cases "find (\<lambda>m. ID m = params r ''id'') movies")
  case None
  then show ?thesis
    by (simp add: updateMovie_eq)
next
  case (Some m)
  then have ex: "\<exists>m \<in> set movies. \<not> ID m \<noteq> params r ''id''"
    by (auto simp: find_Some_iff)
  define k where "k = length (takeWhile (\<lambda>m. ID m \<noteq> params r ''id'') movies)"
  note fm = first_match_index [OF ex, folded k_def]
  have res: "snd (updateMovie Decode r w movies) =
      take k movies @ drop (Suc k) movies
        @ [(snd (Decode (Body r) zero_Movie))\<lparr>ID := params r ''id''\<rparr>]"
    using Some fm(4,5) by (simp add: updateMovie_eq)
  have "movies = take k movies @ movies ! k # drop (Suc k) movies"
    using fm(1) by (rule id_take_nth_drop)
  then have "mset (map ID movies) =
      mset (map ID (take k movies @ movies ! k # drop (Suc k) movies))"
    by (rule arg_cong)
  also have "\<dots> =
      mset (map ID (take k movies)) + {#ID (movies ! k)#} + mset (map ID (drop (Suc k) movies))"
    by simp
  finally have "mset (map ID movies) =
      mset (map ID (take k movies)) + {#ID (movies ! k)#} + mset (map ID (drop (Suc k) movies))" .
  with fm(2) show ?thesis
    unfolding res by simp
qed

text \<open>
  On the start state, PUT /movies/1 with a body naming the id "7": the ids are "2", "1".
\<close>

theorem updateMovie_preserves_id_multiset_witness:
  \<open>map ID (snd (updateMovie (\<lambda>b m. (None, m\<lparr>ID := ''7'', Title := ''New''\<rparr>))
       \<lparr>Vars = [''id'' \<mapsto> ''1''], Body = ''{"id":"7","title":"New"}''\<rparr> new_ResponseWriter main_movies)) = [''2'', ''1'']
   \<and> mset [''2'', ''1''] = mset (map ID main_movies)\<close>
proof -
  have \<open>map ID (snd (updateMovie (\<lambda>b m. (None, m\<lparr>ID := ''7'', Title := ''New''\<rparr>))
       \<lparr>Vars = [''id'' \<mapsto> ''1''], Body = ''{"id":"7","title":"New"}''\<rparr> new_ResponseWriter main_movies)) = [''2'', ''1'']\<close>
    by (simp add: updateMovie_eq main_movies_def params_def)
  then show ?thesis
    using updateMovie_preserves_id_multiset [of \<open>\<lambda>b m. (None, m\<lparr>ID := ''7'', Title := ''New''\<rparr>)\<close>
       \<open>\<lparr>Vars = [''id'' \<mapsto> ''1''], Body = ''{"id":"7","title":"New"}''\<rparr>\<close> new_ResponseWriter main_movies]
    by simp
qed

section \<open>Creating a record\<close>

text \<open>
  C2. POST /movies stores the decoded body with its id overwritten by the decimal
  rendering of the integer that \<^verbatim>\<open>rand.Intn(1000000)\<close> returns, for a draw in
  [0, 1000000): whatever id the body named is gone, the rendering is at most six decimal
  digits that read back as the draw, the collection, whatever records it held (no id
  is looked up), grows by exactly that one record at its end, and the response encodes
  that record, with status 200.
\<close>

theorem createMovie_appends_record_with_generated_id:
  assumes "0 \<le> Intn 1000000 \<and> Intn 1000000 < 1000000"
  shows "snd (createMovie Decode Intn r w movies) =
           movies @ [(snd (Decode (Body r) zero_Movie))\<lparr>ID := Itoa (Intn 1000000)\<rparr>]
       \<and> length (snd (createMovie Decode Intn r w movies)) = length movies + 1
       \<and> ID (last (snd (createMovie Decode Intn r w movies))) = Itoa (Intn 1000000)
       \<and> list_all is_digit (Itoa (Intn 1000000))
       \<and> length (Itoa (Intn 1000000)) \<le> 6
       \<and> int (decimal_value (Itoa (Intn 1000000))) = Intn 1000000
       \<and> Written (fst (createMovie Decode Intn r new_ResponseWriter movies)) =
           [EncMovie (last (snd (createMovie Decode Intn r w movies)))]
       \<and> response_status (fst (createMovie Decode Intn r new_ResponseWriter movies)) = 200"
proof -
  from assms have it: "Itoa (Intn 1000000) = digits (nat (Intn 1000000))"
    by (simp add: Itoa_def)
  from assms have "nat (Intn 1000000) < 10 ^ 6"
    by (auto simp: nat_less_iff)
  then have "length (digits (nat (Intn 1000000))) \<le> 6"
    by (rule length_digits) simp
  then have len: "length (Itoa (Intn 1000000)) \<le> 6"
    by (simp only: it)
  have val: "int (decimal_value (Itoa (Intn 1000000))) = Intn 1000000"
    using assms by (simp add: it decimal_value_digits)
  have dig: "list_all is_digit (Itoa (Intn 1000000))"
    by (simp only: it digits_all_digit)
  have st: "response_status (fst (createMovie Decode Intn r new_ResponseWriter movies)) = 200"
    by (rule response_status_new) (simp add: createMovie_def Let_def)
  have "snd (createMovie Decode Intn r w movies) =
           movies @ [(snd (Decode (Body r) zero_Movie))\<lparr>ID := Itoa (Intn 1000000)\<rparr>]"
    and "Written (fst (createMovie Decode Intn r new_ResponseWriter movies)) =
           [EncMovie (last (snd (createMovie Decode Intn r w movies)))]"
    by (simp_all add: createMovie_def Let_def)
  with len val dig st show ?thesis
    by simp
qed

text \<open>
  On the start state with the draw 1 and a body naming the id "7": the new record gets
  the id "1", next to the seed record that has it already.
\<close>

theorem createMovie_appends_record_with_generated_id_witness:
  \<open>map ID (snd (createMovie (\<lambda>b m. (None, m\<lparr>ID := ''7'', Isbn := ''999'', Title := ''New''\<rparr>))
       (\<lambda>n. 1) \<lparr>Vars = Map.empty, Body = ''{"id":"7","isbn":"999","title":"New"}''\<rparr> new_ResponseWriter main_movies)) = [''1'', ''2'', ''1'']\<close>
proof -
  have \<open>0 \<le> (\<lambda>n::int. 1::int) 1000000 \<and> (\<lambda>n::int. 1::int) 1000000 < 1000000\<close>
    by simp
  from createMovie_appends_record_with_generated_id [OF this] show ?thesis
    by (simp add: main_movies_def Itoa_1)
qed

text \<open>
  C7, as the code has it. When the body of a POST /movies request does not begin, after
  white space, with a well-formed JSON value (such a body is not JSON), the decoder
  reports an error and stores nothing, and the handler goes on all the same: the record it appends and returns has
  the generated id, empty isbn and title and no director. When the body does begin with
  a well-formed JSON value, the record is what unmarshalling that value leaves, with the
  generated id, whether or not an error is reported and whatever follows the value. In
  both cases the collection grows by one record and the status is 200.
\<close>

theorem createMovie_body_without_json_value_stores_zero_record:
  "(readValue (Body r) = None \<longrightarrow>
      \<not> Valid (Body r)
    \<and> fst (Decoder_Decode Unmarshal (Body r) zero_Movie) \<noteq> None
    \<and> snd (createMovie (Decoder_Decode Unmarshal) Intn r w movies) =
        movies @ [\<lparr>ID = Itoa (Intn 1000000), Isbn = [], Title = [], Director = None\<rparr>]
    \<and> Written (fst (createMovie (Decoder_Decode Unmarshal) Intn r new_ResponseWriter movies)) =
        [EncMovie \<lparr>ID = Itoa (Intn 1000000), Isbn = [], Title = [], Director = None\<rparr>])
   \<and> (\<forall>val rest. readValue (Body r) = Some (val, rest) \<longrightarrow>
      snd (createMovie (Decoder_Decode Unmarshal) Intn r w movies) =
        movies @ [(snd (Unmarshal val zero_Movie))\<lparr>ID := Itoa (Intn 1000000)\<rparr>]
    \<and> Written (fst (createMovie (Decoder_Decode Unmarshal) Intn r new_ResponseWriter movies)) =
        [EncMovie ((snd (Unmarshal val zero_Movie))\<lparr>ID := Itoa (Intn 1000000)\<rparr>)])
   \<and> length (snd (createMovie (Decoder_Decode Unmarshal) Intn r w movies)) = length movies + 1
   \<and> response_status (fst (createMovie (Decoder_Decode Unmarshal) Intn r new_ResponseWriter movies)) = 200"
proof (intro conjI impI allI)
  assume none: "readValue (Body r) = None"
  then show "\<not> Valid (Body r)"
    by (simp add: readValue_def Valid_def split: option.splits)
  from none have dec: "Decoder_Decode Unmarshal (Body r) zero_Movie =
      (Some (json_error ''invalid JSON''), zero_Movie)"
    by (simp add: Decoder_Decode_def)
  then show "fst (Decoder_Decode Unmarshal (Body r) zero_Movie) \<noteq> None"
    by simp
  from dec show "snd (createMovie (Decoder_Decode Unmarshal) Intn r w movies) =
      movies @ [\<lparr>ID = Itoa (Intn 1000000), Isbn = [], Title = [], Director = None\<rparr>]"
    by (simp add: createMovie_def Let_def zero_Movie_def)
  from dec show "Written (fst (createMovie (Decoder_Decode Unmarshal) Intn r new_ResponseWriter movies)) =
      [EncMovie \<lparr>ID = Itoa (Intn 1000000), Isbn = [], Title = [], Director = None\<rparr>]"
    by (simp add: createMovie_def Let_def zero_Movie_def)
next
  fix val rest
  assume "readValue (Body r) = Some (val, rest)"
  then have dec: "Decoder_Decode Unmarshal (Body r) zero_Movie = Unmarshal val zero_Movie"
    by (simp add: Decoder_Decode_def)
  then show "snd (createMovie (Decoder_Decode Unmarshal) Intn r w movies) =
      movies @ [(snd (Unmarshal val zero_Movie))\<lparr>ID := Itoa (Intn 1000000)\<rparr>]"
    by (simp add: createMovie_def Let_def)
  from dec show "Written (fst (createMovie (Decoder_Decode Unmarshal) Intn r new_ResponseWriter movies)) =
      [EncMovie ((snd (Unmarshal val zero_Movie))\<lparr>ID := Itoa (Intn 1000000)\<rparr>)]"
    by (simp add: createMovie_def Let_def)
next
  show "length (snd (createMovie (Decoder_Decode Unmarshal) Intn r w movies)) = length movies + 1"
    by (simp add: createMovie_def Let_def)
  show "response_status (fst (createMovie (Decoder_Decode Unmarshal) Intn r new_ResponseWriter movies)) = 200"
    by (rule response_status_createMovie)
qed

text \<open>
  On the start state with the draw 424242: the body \<^verbatim>\<open>{oops\<close> gives a record with
  empty fields, the body \<^verbatim>\<open>{"isbn":"i","title":"t"}\<close> a record with these two fields.
\<close>

theorem createMovie_body_without_json_value_stores_zero_record_witness:
  \<open>snd (createMovie
       (Decoder_Decode (\<lambda>val m. if val = ''{"isbn":"i","title":"t"}''
          then (None, m\<lparr>Isbn := ''i'', Title := ''t''\<rparr>) else (Some (json_error ''unexpected value''), m)))
       (\<lambda>n. 424242) \<lparr>Vars = Map.empty, Body = ''{oops''\<rparr> new_ResponseWriter main_movies) =
     main_movies @ [\<lparr>ID = ''424242'', Isbn = [], Title = [], Director = None\<rparr>]
   \<and> snd (createMovie
       (Decoder_Decode (\<lambda>val m. if val = ''{"isbn":"i","title":"t"}''
          then (None, m\<lparr>Isbn := ''i'', Title := ''t''\<rparr>) else (Some (json_error ''unexpected value''), m)))
       (\<lambda>n. 424242) \<lparr>Vars = Map.empty, Body = ''{"isbn":"i","title":"t"}''\<rparr> new_ResponseWriter main_movies) =
     main_movies @ [\<lparr>ID = ''424242'', Isbn = ''i'', Title = ''t'', Director = None\<rparr>]\<close>
proof -
  let ?U = \<open>\<lambda>val m. if val = ''{"isbn":"i","title":"t"}''
      then (None :: json_error option, m\<lparr>Isbn := ''i'', Title := ''t''\<rparr>)
      else (Some (json_error ''unexpected value''), m)\<close>
  let ?bad = \<open>\<lparr>Vars = Map.empty, Body = ''{oops''\<rparr>\<close>
  let ?good = \<open>\<lparr>Vars = Map.empty, Body = ''{"isbn":"i","title":"t"}''\<rparr>\<close>
  have none: "readValue (Body ?bad) = None"
    by (simp add: readValue_oops)
  have some: \<open>readValue (Body ?good) = Some (''{"isbn":"i","title":"t"}'', [])\<close>
    by (simp add: readValue_def stateBeginValue_def stateBeginString_def isSpace_def popParseState_def)
  from createMovie_body_without_json_value_stores_zero_record
      [of ?bad ?U "\<lambda>n. 424242" new_ResponseWriter main_movies] none
  have "snd (createMovie (Decoder_Decode ?U) (\<lambda>n. 424242) ?bad new_ResponseWriter main_movies) =
      main_movies @ [\<lparr>ID = Itoa ((\<lambda>n. 424242) 1000000), Isbn = [], Title = [], Director = None\<rparr>]"
    by blast
  moreover
  from createMovie_body_without_json_value_stores_zero_record
      [of ?good ?U "\<lambda>n. 424242" new_ResponseWriter main_movies] some
  have \<open>snd (createMovie (Decoder_Decode ?U) (\<lambda>n. 424242) ?good new_ResponseWriter main_movies) =
      main_movies @ [(snd (?U ''{"isbn":"i","title":"t"}'' zero_Movie))\<lparr>ID := Itoa ((\<lambda>n. 424242) 1000000)\<rparr>]\<close>
    by blast
  ultimately show ?thesis
    by (simp add: Itoa_424242 zero_Movie_def)
qed

text \<open>
  A body that is not JSON and still fills the record: an object followed by the word
  "trailing". The scan ends at the closing brace, the object is unmarshalled without an
  error, and the record that is stored has the isbn and the title of the object.
\<close>

theorem createMovie_keeps_fields_of_non_json_body_counterexample:
  \<open>\<not> Valid ''{"isbn":"i","title":"t"} trailing''
   \<and> snd (createMovie
       (Decoder_Decode (\<lambda>val m. if val = ''{"isbn":"i","title":"t"}''
          then (None, m\<lparr>Isbn := ''i'', Title := ''t''\<rparr>) else (Some (json_error ''unexpected value''), m)))
       (\<lambda>n. 424242) \<lparr>Vars = Map.empty, Body = ''{"isbn":"i","title":"t"} trailing''\<rparr>
       new_ResponseWriter []) =
     [\<lparr>ID = ''424242'', Isbn = ''i'', Title = ''t'', Director = None\<rparr>]\<close>
  by (simp add: not_Valid_trailing readValue_trailing createMovie_def Decoder_Decode_def Let_def
      Itoa_424242 zero_Movie_def)

end
